theory Spec2Isabelle
  imports Complex_Main "HOL-Library.AList" "HOL-Library.Multiset"
begin

section \<open>Data model of advsearch.py\<close>

text \<open>
  A search result is the dict that \<open>IAdvSearchBackend.query_backend\<close> documents
  (keys title, score, source, summary, date, author). The two keys the plugin itself
  writes, \<open>backend_name\<close> and \<open>href\<close>, are optional: \<open>None\<close> is an absent key.
  A backend may already deliver either of them. Scores are Python floats that are only
  ever compared; they are modelled as reals. Results are values here: the lists that
  the backends return are taken to hold distinct dict objects, so that an update of one
  result in place changes no other.
\<close>

record result =
  title :: string
  score :: real
  source :: string
  summary :: string
  date :: string
  author :: string
  backend_name :: "string option"
  href :: "string option"

datatype error = KeyError | ValueError | TypeError | PermissionError | TracError

text \<open>
  A Python 2 dict is an association list with distinct keys, kept in insertion order
  (\<open>AList.update\<close> overwrites in place or appends). CPython 2 iterates a dict in an
  order fixed by the hashes of its keys and its insertion history; that order is the
  parameter \<open>ko\<close> ("key order"), which maps the keys in insertion order to the keys in
  iteration order.
\<close>

type_synonym 'v dict = "(string \<times> 'v) list"

definition iteritems :: "(string list \<Rightarrow> string list) \<Rightarrow> 'v dict \<Rightarrow> (string \<times> 'v) list" where
  "iteritems ko d =
     concat (map (\<lambda>k. case map_of d k of None \<Rightarrow> [] | Some v \<Rightarrow> [(k, v)]) (ko (map fst d)))"

text \<open>
  Python values that the code passes around untyped: \<open>None\<close>, an int, a string, or a
  list of strings.
\<close>

datatype pyval = PyNone | PyInt int | PyStr string | PyList "string list"

text \<open>
  \<open>req.args\<close> (trac.web.api): a dict from parameter name to its value, a string when the
  parameter occurs once and the list of its values (two or more) when it is repeated.
\<close>

datatype argval = Single string | Multi string "string list"

type_synonym req_args = "string \<Rightarrow> argval option"

text \<open>
  The \<open>Paginator\<close> of trac.util.presentation is outside this repository: the object it
  builds is a record of the attributes the plugin reads, and its constructor is a
  parameter of the component.
\<close>

record paginator =
  pg_items :: "result list"
  has_next_page :: bool
  has_previous_page :: bool
  pg_len :: nat
  pg_truth :: bool

record filter_dict =
  fd_name :: string
  fd_active :: pyval

text \<open>
  The dict \<open>data\<close> of \<open>process_request\<close>. The keys of its literal are always there;
  the keys assigned later are optional, \<open>None\<close> being an absent key.
\<close>

record data =
  d_source :: "string list"
  d_author :: "string list"
  d_date_start :: pyval
  d_date_end :: pyval
  d_q :: pyval
  d_start_points :: "pyval dict"
  d_source_filters :: "filter_dict list option"
  d_per_page :: "int option"
  d_page :: "int option"
  d_results :: "paginator option"

text \<open>
  A backend (\<open>IAdvSearchBackend\<close>): \<open>query_backend\<close> is a function of the criteria, which
  it does not modify.
\<close>

record provider =
  get_name :: string
  query_backend :: "data \<Rightarrow> int \<times> result list"

text \<open>
  The component: its providers, and what it takes from its environment (Trac's
  \<open>env.href.wiki\<close>, the interpreter's dict iteration order, Trac's \<open>Paginator\<close>).
\<close>

record component =
  providers :: "provider list"
  href_wiki :: "string \<Rightarrow> string"
  key_order :: "string list \<Rightarrow> string list"
  Paginator :: "result list \<Rightarrow> int \<Rightarrow> int \<Rightarrow> int \<Rightarrow> error + paginator"

record request =
  args :: req_args
  perm :: "string set"

datatype chrome = Warning string | Stylesheet string | Script string | Link string string string

record response =
  template :: string
  resp_data :: data
  chrome_events :: "chrome list"

datatype json = JInt int | JStr string | JList "json list" | JDict "(string \<times> json) list"

section \<open>Library behaviour the plugin relies on\<close>

text \<open>
  \<open>list.sort(key=..., reverse=True)\<close>: CPython reverses the list, sorts it with a
  stable ascending sort and reverses it again.
\<close>

definition py_sort_reverse :: "('a \<Rightarrow> 'k::linorder) \<Rightarrow> 'a list \<Rightarrow> 'a list" where
  "py_sort_reverse key xs = rev (sort_key key (rev xs))"

text \<open>
  The slice \<open>xs[:n]\<close>: the first \<open>n\<close> elements when \<open>n\<close> is not negative, and
  otherwise all but the last \<open>-n\<close> elements.
\<close>

definition py_slice_to :: "'a list \<Rightarrow> int \<Rightarrow> 'a list" where
  "py_slice_to xs n =
     (if 0 \<le> n then take (nat n) xs else take (nat (int (length xs) + n)) xs)"

section \<open>AdvancedSearchPlugin._merge_results\<close>

text \<open>The inner loop: \<open>result_dict['backend_name'] = backend_name\<close> for each result.\<close>

fun tag_results :: "string \<Rightarrow> result list \<Rightarrow> result list" where
  "tag_results name [] = []"
| "tag_results name (result_dict # results) =
     result_dict\<lparr>backend_name := Some name\<rparr> # tag_results name results"

text \<open>The outer loop over \<open>result_map.iteritems()\<close>, extending \<open>all_results\<close>.\<close>

fun merge_loop :: "(string \<times> result list) list \<Rightarrow> result list \<Rightarrow> result list" where
  "merge_loop [] all_results = all_results"
| "merge_loop ((name, results) # rest) all_results =
     merge_loop rest (all_results @ tag_results name results)"

definition merge_results ::
  "(string list \<Rightarrow> string list) \<Rightarrow> result list dict \<Rightarrow> int \<Rightarrow> result list" where
  "merge_results ko result_map per_page =
     py_slice_to (py_sort_reverse score (merge_loop (iteritems ko result_map) [])) per_page"

subsection \<open>The reference definition of the merge, in the words of the specification\<close>

text \<open>
  Insertion into a list that is sorted by descending key: the new element goes in front
  of the first element whose key is not larger. Folding it from the right over the input
  is a stable descending sort.
\<close>

fun insert_desc :: "('a \<Rightarrow> 'k::linorder) \<Rightarrow> 'a \<Rightarrow> 'a list \<Rightarrow> 'a list" where
  "insert_desc key x [] = [x]"
| "insert_desc key x (y # ys) =
     (if key y \<le> key x then x # y # ys else y # insert_desc key x ys)"

definition stable_sort_desc :: "('a \<Rightarrow> 'k::linorder) \<Rightarrow> 'a list \<Rightarrow> 'a list" where
  "stable_sort_desc key xs = foldr (insert_desc key) xs []"

definition spec_tag :: "string \<Rightarrow> result \<Rightarrow> result" where
  "spec_tag name r = r\<lparr>backend_name := Some name\<rparr>"

definition spec_merge :: "(string \<times> result list) list \<Rightarrow> nat \<Rightarrow> result list" where
  "spec_merge items n =
     take n (stable_sort_desc score (concat (map (\<lambda>(name, rs). map (spec_tag name) rs) items)))"

section \<open>Conversions and request arguments\<close>

text \<open>
  The builtin \<open>int\<close> on a string: surrounding whitespace is stripped, one sign is
  allowed, and the rest must be a non-empty run of decimal digits; anything else raises
  ValueError. (ASCII whitespace and digits.)
\<close>

definition is_space :: "char \<Rightarrow> bool" where
  "is_space c = (c \<in> set [CHR 0x20, CHR 0x09, CHR 0x0A, CHR 0x0B, CHR 0x0C, CHR 0x0D])"

definition is_digit :: "char \<Rightarrow> bool" where
  "is_digit c = (48 \<le> (of_char c :: nat) \<and> (of_char c :: nat) \<le> 57)"

definition strip :: "string \<Rightarrow> string" where
  "strip s = rev (dropWhile is_space (rev (dropWhile is_space s)))"

definition digits_value :: "string \<Rightarrow> int" where
  "digits_value ds = foldl (\<lambda>n c. 10 * n + (int (of_char c) - 48)) 0 ds"

definition unsigned_of_string :: "string \<Rightarrow> int option" where
  "unsigned_of_string ds =
     (if ds \<noteq> [] \<and> list_all is_digit ds then Some (digits_value ds) else None)"

definition int_of_string :: "string \<Rightarrow> int option" where
  "int_of_string s =
     (case strip s of
        [] \<Rightarrow> None
      | c # cs \<Rightarrow>
          if c = CHR 0x2D then map_option uminus (unsigned_of_string cs)
          else if c = CHR 0x2B then unsigned_of_string cs
          else unsigned_of_string (c # cs))"

definition py_int :: "pyval \<Rightarrow> error + int" where
  "py_int v =
     (case v of
        PyInt n \<Rightarrow> Inr n
      | PyStr s \<Rightarrow> (case int_of_string s of None \<Rightarrow> Inl ValueError | Some n \<Rightarrow> Inr n)
      | PyNone \<Rightarrow> Inl TypeError
      | PyList vs \<Rightarrow> Inl TypeError)"

text \<open>Truth value of a Python value, as \<open>not query\<close> tests it.\<close>

definition truthy :: "pyval \<Rightarrow> bool" where
  "truthy v =
     (case v of PyNone \<Rightarrow> False | PyInt n \<Rightarrow> n \<noteq> 0 | PyStr s \<Rightarrow> s \<noteq> [] | PyList vs \<Rightarrow> vs \<noteq> [])"

text \<open>\<open>req.args.get(name)\<close>, \<open>req.args.getfirst(name, default)\<close>, \<open>req.args.getlist(name)\<close>.\<close>

definition get :: "req_args \<Rightarrow> string \<Rightarrow> pyval" where
  "get a name =
     (case a name of
        None \<Rightarrow> PyNone
      | Some (Single v) \<Rightarrow> PyStr v
      | Some (Multi v vs) \<Rightarrow> PyList (v # vs))"

definition getfirst :: "req_args \<Rightarrow> string \<Rightarrow> pyval \<Rightarrow> pyval" where
  "getfirst a name dflt =
     (case a name of
        None \<Rightarrow> dflt
      | Some (Single v) \<Rightarrow> PyStr v
      | Some (Multi v vs) \<Rightarrow> PyStr v)"

definition getlist :: "req_args \<Rightarrow> string \<Rightarrow> string list" where
  "getlist a name =
     (case a name of
        None \<Rightarrow> []
      | Some (Single v) \<Rightarrow> [v]
      | Some (Multi v vs) \<Rightarrow> v # vs)"

section \<open>simplejson.dumps\<close>

text \<open>
  With its default options: items separated by a comma and a blank, keys and values by a
  colon and a blank, strings escaped to ASCII, the items of a dict in its iteration order.
\<close>

definition digit_char :: "nat \<Rightarrow> char" where
  "digit_char n = ''0123456789'' ! n"

fun str_nat :: "nat \<Rightarrow> string" where
  "str_nat n = (if n < 10 then [digit_char n] else str_nat (n div 10) @ [digit_char (n mod 10)])"

declare str_nat.simps [simp del]

definition str_int :: "int \<Rightarrow> string" where
  "str_int i = (if i < 0 then CHR 0x2D # str_nat (nat (- i)) else str_nat (nat i))"

definition hex_char :: "nat \<Rightarrow> char" where
  "hex_char n = ''0123456789abcdef'' ! n"

definition escape_char :: "char \<Rightarrow> string" where
  "escape_char c =
     (let n = (of_char c :: nat) in
      if n = 0x22 then [CHR 0x5C, CHR 0x22]
      else if n = 0x5C then [CHR 0x5C, CHR 0x5C]
      else if n = 0x08 then [CHR 0x5C, CHR ''b'']
      else if n = 0x0C then [CHR 0x5C, CHR ''f'']
      else if n = 0x0A then [CHR 0x5C, CHR ''n'']
      else if n = 0x0D then [CHR 0x5C, CHR ''r'']
      else if n = 0x09 then [CHR 0x5C, CHR ''t'']
      else if 0x20 \<le> n \<and> n \<le> 0x7E then [c]
      else [CHR 0x5C, CHR ''u'', CHR ''0'', CHR ''0'', hex_char (n div 16), hex_char (n mod 16)])"

definition encode_basestring_ascii :: "string \<Rightarrow> string" where
  "encode_basestring_ascii s = CHR 0x22 # concat (map escape_char s) @ [CHR 0x22]"

fun join :: "string \<Rightarrow> string list \<Rightarrow> string" where
  "join sep [] = []"
| "join sep [x] = x"
| "join sep (x # y # ys) = x @ sep @ join sep (y # ys)"

fun dumps :: "(string list \<Rightarrow> string list) \<Rightarrow> json \<Rightarrow> string" where
  "dumps ko (JInt i) = str_int i"
| "dumps ko (JStr s) = encode_basestring_ascii s"
| "dumps ko (JList xs) = ''['' @ join '', '' (map (dumps ko) xs) @ '']''"
| "dumps ko (JDict d) =
     ''{'' @ join '', ''
        (map (\<lambda>(k, v). encode_basestring_ascii k @ '': '' @ v)
          (iteritems ko (map (\<lambda>(k, v). (k, dumps ko v)) d))) @ ''}''"

section \<open>StartPoints\<close>

definition FORMAT_STRING :: "string \<Rightarrow> string" where
  "FORMAT_STRING name = ''provider_start_point:'' @ name"

text \<open>\<open>StartPoints.parse_args\<close>: the loop over \<open>provider_list\<close>, then the method.\<close>

fun parse_args_loop :: "req_args \<Rightarrow> provider list \<Rightarrow> pyval dict \<Rightarrow> pyval dict" where
  "parse_args_loop req_args [] start_points = start_points"
| "parse_args_loop req_args (p # ps) start_points =
     parse_args_loop req_args ps
       (AList.update (get_name p)
          (getfirst req_args (FORMAT_STRING (get_name p)) (PyInt 0)) start_points)"

definition parse_args :: "req_args \<Rightarrow> provider list \<Rightarrow> pyval dict" where
  "parse_args req_args provider_list = parse_args_loop req_args provider_list []"

text \<open>
  \<open>StartPoints.format\<close>, lines 283 to 286: \<open>int(prev_start_points.get(backend_name, 0))\<close>
  under a bare \<open>except\<close>.
\<close>

definition prev_start :: "pyval dict \<Rightarrow> string \<Rightarrow> int" where
  "prev_start prev_start_points name =
     (case py_int (case map_of prev_start_points name of None \<Rightarrow> PyInt 0 | Some v \<Rightarrow> v) of
        Inl e \<Rightarrow> 0
      | Inr n \<Rightarrow> n)"

text \<open>
  The loop of \<open>StartPoints.format\<close> (lines 279 to 288), which builds the dict
  \<open>start_points\<close>; \<open>result['backend_name']\<close> raises KeyError on a result without the key.
\<close>

fun format_loop :: "result list \<Rightarrow> pyval dict \<Rightarrow> int dict \<Rightarrow> error + int dict" where
  "format_loop [] prev_start_points start_points = Inr start_points"
| "format_loop (r # rs) prev_start_points start_points =
     (case backend_name r of
        None \<Rightarrow> Inl KeyError
      | Some name \<Rightarrow>
          (let sp = (if name \<notin> set (map fst start_points)
                     then AList.update name (prev_start prev_start_points name) start_points
                     else start_points)
           in case map_of sp name of
                None \<Rightarrow> Inl KeyError
              | Some v \<Rightarrow> format_loop rs prev_start_points (AList.update name (v + 1) sp)))"

definition start_point_json :: "string \<times> int \<Rightarrow> json" where
  "start_point_json = (\<lambda>(name, v).
     JDict [(''name'', JStr (FORMAT_STRING name)), (''value'', JInt v)])"

definition format :: "(string list \<Rightarrow> string list) \<Rightarrow> result list \<Rightarrow> pyval dict \<Rightarrow> error + string" where
  "format ko results prev_start_points =
     (case format_loop results prev_start_points [] of
        Inl e \<Rightarrow> Inl e
      | Inr start_points \<Rightarrow>
          Inr (dumps ko (JList (map start_point_json (iteritems ko start_points)))))"

section \<open>AdvancedSearchPlugin\<close>

definition SOURCE_FILTERS :: "string list" where
  "SOURCE_FILTERS = [''wiki'', ''ticket'']"

definition DEFAULT_PER_PAGE :: int where
  "DEFAULT_PER_PAGE = 10"

text \<open>\<open>_add_href_to_results\<close>: the loop runs over the list and updates a result in place.\<close>

fun add_href_to_results :: "component \<Rightarrow> result list \<Rightarrow> result list" where
  "add_href_to_results self [] = []"
| "add_href_to_results self (r # rs) =
     (if source r = ''wiki'' then r\<lparr>href := Some (href_wiki self (title r))\<rparr> else r)
       # add_href_to_results self rs"

definition get_filter_dicts :: "string list \<Rightarrow> req_args \<Rightarrow> filter_dict list" where
  "get_filter_dicts filter_list req_args =
     map (\<lambda>f. \<lparr>fd_name = f, fd_active = get req_args f\<rparr>) filter_list"

text \<open>
  \<open>_send_response\<close>; the first argument is what \<open>process_request\<close> has already added to
  the request's chrome.
\<close>

definition send_response :: "component \<Rightarrow> chrome list \<Rightarrow> data \<Rightarrow> response" where
  "send_response self added d =
     \<lparr>template = ''advsearch.html'',
      resp_data = d,
      chrome_events = added
        @ (if length (providers self) = 0
           then [Warning ''No advanced search providers found. You must register a search backend.'']
           else [])
        @ (case d_results d of
             None \<Rightarrow> []
           | Some pg \<Rightarrow> if pg_truth pg \<and> pg_len pg = 0 then [Warning ''No results.''] else [])
        @ [Stylesheet ''common/css/search.css'', Stylesheet ''advsearch/css/advsearch.css'',
           Script ''advsearch/js/advsearch.js'']\<rparr>"

text \<open>
  Lines 128 to 137 of \<open>process_request\<close>: the two conversions, each catching ValueError
  only.
\<close>

definition per_page_of :: "req_args \<Rightarrow> error + int" where
  "per_page_of a =
     (case py_int (getfirst a ''per_page'' (PyInt DEFAULT_PER_PAGE)) of
        Inr n \<Rightarrow> Inr n
      | Inl e \<Rightarrow> if e = ValueError then Inr DEFAULT_PER_PAGE else Inl e)"

definition page_of :: "req_args \<Rightarrow> error + int" where
  "page_of a =
     (case py_int (getfirst a ''page'' (PyInt 1)) of
        Inr n \<Rightarrow> Inr n
      | Inl e \<Rightarrow> if e = ValueError then Inr 1 else Inl e)"

text \<open>Lines 139 to 146: the dict literal \<open>data\<close>.\<close>

definition criteria_of :: "component \<Rightarrow> request \<Rightarrow> data" where
  "criteria_of self req =
     \<lparr>d_source = getlist (args req) ''source_filters'',
      d_author = filter (\<lambda>auth. auth \<noteq> []) (getlist (args req) ''author''),
      d_date_start = getfirst (args req) ''date_start'' PyNone,
      d_date_end = getfirst (args req) ''date_end'' PyNone,
      d_q = get (args req) ''q'',
      d_start_points = parse_args (args req) (providers self),
      d_source_filters = None,
      d_per_page = None,
      d_page = None,
      d_results = None\<rparr>"

text \<open>
  Lines 152 to 157: the loop over the providers. Besides \<open>result_map\<close> and \<open>total_count\<close>
  the state holds the log of the calls made: the name of the provider and the criteria
  it was given.
\<close>

fun query_providers ::
  "provider list \<Rightarrow> data \<Rightarrow> result list dict \<times> int \<times> (string \<times> data) list
     \<Rightarrow> result list dict \<times> int \<times> (string \<times> data) list" where
  "query_providers [] d st = st"
| "query_providers (p # ps) d (result_map, total_count, calls) =
     (case query_backend p d of
        (result_count, result_list) \<Rightarrow>
          query_providers ps d
            (AList.update (get_name p) result_list result_map,
             total_count + result_count,
             calls @ [(get_name p, d)]))"

text \<open>
  \<open>process_request\<close> returns the log of the calls to \<open>query_backend\<close> and either the
  exception raised or the response.
\<close>

definition process_request ::
  "component \<Rightarrow> request \<Rightarrow> (string \<times> data) list \<times> (error + response)" where
  "process_request self req =
     (if ''SEARCH_VIEW'' \<notin> perm req then ([], Inl PermissionError)
      else
        let query = get (args req) ''q'' in
        case per_page_of (args req) of
          Inl e \<Rightarrow> ([], Inl e)
        | Inr per_page \<Rightarrow>
        case page_of (args req) of
          Inl e \<Rightarrow> ([], Inl e)
        | Inr page \<Rightarrow>
        let d = criteria_of self req in
        if \<not> truthy query then ([], Inr (send_response self [] d))
        else
          case query_providers (providers self) d ([], 0, []) of
            (result_map, total_count, calls) \<Rightarrow>
          let d1 = d\<lparr>d_source_filters := Some (get_filter_dicts SOURCE_FILTERS (args req)),
                     d_per_page := Some per_page,
                     d_page := Some page\<rparr>;
              results = add_href_to_results self
                          (merge_results (key_order self) result_map per_page)
          in case Paginator self results (page - 1) per_page total_count of
               Inl e \<Rightarrow> (calls, Inl e)
             | Inr pg \<Rightarrow>
          let d2 = d1\<lparr>d_results := Some pg\<rparr> in
          case (if has_next_page pg
                then (case format (key_order self) results (d_start_points d2) of
                        Inl e \<Rightarrow> Inl e
                      | Inr start_points \<Rightarrow>
                          Inr [Link ''next'' (''javascript:next_page('' @ start_points @ '')'')
                                 ''Next Page''])
                else Inr []) of
            Inl e \<Rightarrow> (calls, Inl e)
          | Inr next_link \<Rightarrow>
              (calls, Inr (send_response self
                 (next_link @ (if has_previous_page pg
                               then [Link ''prev'' ''javascript:history.go(-1)'' ''Previous Page'']
                               else [])) d2)))"

section \<open>Reference notions of the specification\<close>

text \<open>
  The number of records of one provider on a page, and the providers of a page in the
  order of their first record (the order in which \<open>StartPoints.format\<close> inserts them
  into its dict).
\<close>

fun first_occurrences :: "'a list \<Rightarrow> 'a list" where
  "first_occurrences [] = []"
| "first_occurrences (x # xs) = x # filter (\<lambda>y. y \<noteq> x) (first_occurrences xs)"

definition page_count :: "result list \<Rightarrow> string \<Rightarrow> nat" where
  "page_count results name = length (filter (\<lambda>r. backend_name r = Some name) results)"

definition page_providers :: "result list \<Rightarrow> string list" where
  "page_providers results = first_occurrences (List.map_filter backend_name results)"

text \<open>
  An integer request parameter with a default, in the words of the specification: the
  default when the parameter is missing or its (first) value is not an integer, and
  otherwise the integer supplied.
\<close>

definition first_value :: "argval \<Rightarrow> string" where
  "first_value v = (case v of Single x \<Rightarrow> x | Multi x xs \<Rightarrow> x)"

definition spec_int_param :: "req_args \<Rightarrow> string \<Rightarrow> int \<Rightarrow> int" where
  "spec_int_param a name dflt =
     (case a name of
        None \<Rightarrow> dflt
      | Some v \<Rightarrow> (case int_of_string (first_value v) of None \<Rightarrow> dflt | Some n \<Rightarrow> n))"

section \<open>Example values\<close>

definition example_result :: "string \<Rightarrow> real \<Rightarrow> string \<Rightarrow> string option \<Rightarrow> result" where
  "example_result t s src b =
     \<lparr>title = t, score = s, source = src, summary = ''...'', date = ''2011-04-20'',
      author = ''admin'', backend_name = b, href = None\<rparr>"

definition example_page :: "result list" where
  "example_page =
     [example_result ''TracHelp'' 0.9 ''wiki'' (Some ''a''),
      example_result ''Ticket 7'' 0.8 ''ticket'' (Some ''b''),
      example_result ''TracGuide'' 0.7 ''wiki'' (Some ''a'')]"


definition example_provider :: "string \<Rightarrow> int \<Rightarrow> result list \<Rightarrow> provider" where
  "example_provider name n rs = \<lparr>get_name = name, query_backend = (\<lambda>criteria. (n, rs))\<rparr>"

definition example_paginator :: "result list \<Rightarrow> int \<Rightarrow> int \<Rightarrow> int \<Rightarrow> error + paginator" where
  "example_paginator items page max_per_page num_items =
     Inr \<lparr>pg_items = items,
          has_next_page = ((page + 1) * max_per_page < num_items),
          has_previous_page = (0 < page),
          pg_len = length items,
          pg_truth = (items \<noteq> [])\<rparr>"

definition example_component :: component where
  "example_component =
     \<lparr>providers =
        [example_provider ''a'' 12
           [example_result ''TracHelp'' 0.9 ''wiki'' None,
            example_result ''TracGuide'' 0.7 ''wiki'' None],
         example_provider ''b'' 3
           [example_result ''Ticket 7'' 0.8 ''ticket'' None]],
      href_wiki = (\<lambda>t. ''/wiki/'' @ t),
      key_order = (\<lambda>ks. ks),
      Paginator = example_paginator\<rparr>"

definition example_args :: req_args where
  "example_args = map_of
     [(''q'', Single ''trac''),
      (''per_page'', Single '' 5 ''),
      (''page'', Single ''2''),
      (''author'', Multi ''admin'' [[], ''joe'']),
      (''source_filters'', Single ''wiki''),
      (''provider_start_point:a'', Single ''10''),
      (''provider_start_point:c'', Single ''5'')]"

definition example_request :: request where
  "example_request = \<lparr>args = example_args, perm = {''SEARCH_VIEW'', ''WIKI_VIEW''}\<rparr>"

definition example_map :: "result list dict" where
  "example_map =
     [(''a'', [example_result ''TracHelp'' 0.7 ''wiki'' None,
               example_result ''TracGuide'' 0.9 ''wiki'' None,
               example_result ''TracLinks'' 0.7 ''wiki'' None]),
      (''b'', [example_result ''Ticket 7'' 0.7 ''ticket'' None,
               example_result ''Ticket 9'' 0.2 ''ticket'' None])]"

definition example_linked :: result where
  "example_linked = (example_result ''Ticket 7'' 0.8 ''ticket'' (Some ''b''))\<lparr>href := Some ''/ticket/7''\<rparr>"

definition example_fallback_args :: req_args where
  "example_fallback_args = map_of [(''q'', Single ''trac''), (''page'', Single ''two'')]"




section \<open>Properties of the sort\<close>

lemma mset_insert_desc: "mset (insert_desc key x ys) = add_mset x (mset ys)"
  by (induction ys) auto

lemma set_insert_desc: "set (insert_desc key x ys) = insert x (set ys)"
  by (induction ys) auto

lemma mset_stable_sort_desc: "mset (stable_sort_desc key xs) = mset xs"
  by (induction xs) (auto simp: stable_sort_desc_def mset_insert_desc)

lemma sorted_insert_desc:
  "sorted_wrt (\<lambda>a b. key b \<le> key a) ys \<Longrightarrow> sorted_wrt (\<lambda>a b. key b \<le> key a) (insert_desc key x ys)"
  by (induction ys) (auto simp: set_insert_desc)

lemma sorted_stable_sort_desc: "sorted_wrt (\<lambda>a b. key b \<le> key a) (stable_sort_desc key xs)"
  by (induction xs) (auto simp: stable_sort_desc_def sorted_insert_desc)

lemma filter_insert_desc_other:
  "\<not> P x \<Longrightarrow> filter P (insert_desc key x ys) = filter P ys"
  by (induction ys) auto

lemma filter_insert_desc_same:
  "sorted_wrt (\<lambda>a b. key b \<le> key a) ys \<Longrightarrow>
   filter (\<lambda>y. key y = key x) (insert_desc key x ys) = x # filter (\<lambda>y. key y = key x) ys"
proof (induction ys)
  case Nil
  show ?case by simp
next
  case (Cons y ys)
  show ?case
  proof (cases "key y \<le> key x")
    case True
    then show ?thesis by simp
  next
    case False
    with Cons show ?thesis by auto
  qed
qed

lemma stable_sort_desc_stable:
  "filter (\<lambda>y. key y = k) (stable_sort_desc key xs) = filter (\<lambda>y. key y = k) xs"
proof (induction xs)
  case Nil
  show ?case by (simp add: stable_sort_desc_def)
next
  case (Cons x xs)
  have s: "sorted_wrt (\<lambda>a b. key b \<le> key a) (stable_sort_desc key xs)"
    by (rule sorted_stable_sort_desc)
  have unfold: "stable_sort_desc key (x # xs) = insert_desc key x (stable_sort_desc key xs)"
    by (simp add: stable_sort_desc_def)
  show ?case
  proof (cases "key x = k")
    case True
    with Cons filter_insert_desc_same [OF s, of x] show ?thesis
      by (simp add: unfold)
  next
    case False
    with Cons show ?thesis
      by (simp add: unfold filter_insert_desc_other)
  qed
qed

lemma py_sort_reverse_eq: "py_sort_reverse key xs = stable_sort_desc key xs"
proof -
  let ?ys = "stable_sort_desc key xs"
  have "sort_key key (rev xs) = rev ?ys"
  proof (rule properties_for_sort_key)
    show "mset (rev ?ys) = mset (rev xs)"
      by (simp add: mset_stable_sort_desc)
    show "filter (\<lambda>x. key k = key x) (rev ?ys) = filter (\<lambda>x. key k = key x) (rev xs)" for k
      using stable_sort_desc_stable [of key "key k" xs]
      by (simp add: rev_filter [symmetric] eq_commute)
    show "sorted (map key (rev ?ys))"
      using sorted_stable_sort_desc [of key xs]
      by (simp add: sorted_map sorted_wrt_rev)
  qed
  then show ?thesis
    by (simp add: py_sort_reverse_def)
qed

lemma tag_results_map: "tag_results name rs = map (spec_tag name) rs"
  by (induction rs) (auto simp: spec_tag_def)

lemma merge_loop_concat:
  "merge_loop items acc = acc @ concat (map (\<lambda>(name, rs). map (spec_tag name) rs) items)"
  by (induction items acc rule: merge_loop.induct) (auto simp: tag_results_map)

section \<open>The start points computed by StartPoints.format\<close>

lemma set_first_occurrences: "set (first_occurrences xs) = set xs"
  by (induction xs) auto

lemma distinct_first_occurrences: "distinct (first_occurrences xs)"
  by (induction xs) (auto simp: set_first_occurrences)

lemma update_fresh: "k \<notin> fst ` set al \<Longrightarrow> AList.update k v al = al @ [(k, v)]"
  by (induction al) auto

lemma update_bump:
  "distinct (map fst sp) \<Longrightarrow> map_of sp b = Some (v::int) \<Longrightarrow>
   map (\<lambda>(k, w). (k, w + c k)) (AList.update b (v + 1) sp)
     = map (\<lambda>(k, w). (k, w + (c k + (if k = b then 1 else 0)))) sp"
proof (induction sp)
  case Nil
  then show ?case by simp
next
  case (Cons a sp)
  obtain k w where a: "a = (k, w)" by (cases a)
  show ?case
  proof (cases "k = b")
    case True
    with Cons.prems a have "w = v" by simp
    have "b \<notin> fst ` set sp" using Cons.prems True a by auto
    then have "map (\<lambda>(k, w). (k, w + c k)) sp
                = map (\<lambda>(k, w). (k, w + (c k + (if k = b then 1 else 0)))) sp"
      by (intro map_cong) (auto simp: image_iff split: prod.splits)
    with True a \<open>w = v\<close> show ?thesis by simp
  next
    case False
    with Cons a show ?thesis by simp
  qed
qed

lemma format_loop_tagged:
  "map backend_name rs = map Some names \<Longrightarrow> distinct (map fst sp) \<Longrightarrow>
   format_loop rs prev sp =
     Inr (map (\<lambda>(k, w). (k, w + int (count_list names k))) sp
          @ map (\<lambda>b. (b, prev_start prev b + int (count_list names b)))
              (filter (\<lambda>b. b \<notin> fst ` set sp) (first_occurrences names)))"
proof (induction rs arbitrary: names sp)
  case Nil
  then show ?case by simp
next
  case (Cons r rs)
  then obtain b names' where names: "names = b # names'"
    and rb: "backend_name r = Some b" and rest: "map backend_name rs = map Some names'"
    by (cases names) auto
  show ?case
  proof (cases "b \<in> fst ` set sp")
    case True
    then obtain v where v: "map_of sp b = Some v"
      by (metis domD dom_map_of_conv_image_fst)
    have d: "distinct (map fst (AList.update b (v + 1) sp))"
      using Cons.prems(2) by (rule AList.distinct_update)
    have keys: "fst ` set (AList.update b (v + 1) sp) = fst ` set sp"
      using True by (auto simp: AList.dom_update)
    have filt: "filter (\<lambda>x. x \<notin> fst ` set sp) (filter (\<lambda>y. y \<noteq> b) (first_occurrences names'))
          = filter (\<lambda>x. x \<notin> fst ` set sp) (first_occurrences names')"
      using True by (auto intro: filter_cong)
    have tl: "map (\<lambda>x. (x, prev_start prev x + int (count_list names' x)))
                (filter (\<lambda>x. x \<notin> fst ` set sp) (first_occurrences names'))
            = map (\<lambda>x. (x, prev_start prev x + int (count_list (b # names') x)))
                (filter (\<lambda>x. x \<notin> fst ` set sp) (first_occurrences names'))"
      using True by (intro map_cong) auto
    have hd: "map (\<lambda>(k, w). (k, w + int (count_list names' k))) (AList.update b (v + 1) sp)
            = map (\<lambda>(k, w). (k, w + int (count_list (b # names') k))) sp"
      using update_bump [OF Cons.prems(2) v, of "\<lambda>k. int (count_list names' k)"]
      by (simp add: case_prod_unfold cong: map_cong)
    have step: "format_loop (r # rs) prev sp = format_loop rs prev (AList.update b (v + 1) sp)"
      using True v rb by simp
    have fo: "filter (\<lambda>x. x \<notin> fst ` set sp) (first_occurrences names)
          = filter (\<lambda>x. x \<notin> fst ` set sp) (first_occurrences names')"
      using True filt by (simp add: names del: filter_filter)
    show ?thesis
      unfolding step Cons.IH [OF rest d] keys fo
      unfolding names hd tl ..
  next
    case False
    let ?p = "prev_start prev b"
    have u1: "AList.update b ?p sp = sp @ [(b, ?p)]"
      using False by (rule update_fresh)
    have u2: "AList.update b (?p + 1) (sp @ [(b, ?p)]) = sp @ [(b, ?p + 1)]"
      using False by (induction sp) auto
    have "map_of sp b = None"
      using False by (simp add: map_of_eq_None_iff)
    then have m: "map_of (sp @ [(b, ?p)]) b = Some ?p"
      by (simp add: map_add_def)
    have d: "distinct (map fst (sp @ [(b, ?p + 1)]))"
      using Cons.prems(2) False by auto
    have hd: "map (\<lambda>(k, w). (k, w + int (count_list names' k))) sp
            = map (\<lambda>(k, w). (k, w + int (count_list (b # names') k))) sp"
      using False by (intro map_cong) (auto simp: image_iff)
    have filt: "filter (\<lambda>x. x \<notin> fst ` set (sp @ [(b, ?p + 1)])) (first_occurrences names')
         = filter (\<lambda>x. x \<notin> fst ` set sp) (filter (\<lambda>y. y \<noteq> b) (first_occurrences names'))"
      by (auto intro: filter_cong)
    have tl: "map (\<lambda>x. (x, prev_start prev x + int (count_list names' x)))
                (filter (\<lambda>x. x \<notin> fst ` set sp) (filter (\<lambda>y. y \<noteq> b) (first_occurrences names')))
            = map (\<lambda>x. (x, prev_start prev x + int (count_list (b # names') x)))
                (filter (\<lambda>x. x \<notin> fst ` set sp) (filter (\<lambda>y. y \<noteq> b) (first_occurrences names')))"
      by (intro map_cong) auto
    have step: "format_loop (r # rs) prev sp = format_loop rs prev (sp @ [(b, ?p + 1)])"
      using False rb m by (simp add: u1 u2)
    have fo: "filter (\<lambda>x. x \<notin> fst ` set sp) (first_occurrences names)
          = b # filter (\<lambda>x. x \<notin> fst ` set sp) (filter (\<lambda>y. y \<noteq> b) (first_occurrences names'))"
      using False by (simp add: names del: filter_filter)
    have "map (\<lambda>(k, w). (k, w + int (count_list names' k))) (sp @ [(b, ?p + 1)])
            = map (\<lambda>(k, w). (k, w + int (count_list names k))) sp
              @ [(b, ?p + int (count_list names b))]"
      by (simp add: hd names)
    then show ?thesis
      unfolding step Cons.IH [OF rest d] filt fo
      by (simp add: tl names del: filter_filter count_list.simps)
  qed
qed


lemma tagged_names:
  assumes "\<forall>r\<in>set results. backend_name r \<noteq> None"
  shows "map backend_name results = map Some (List.map_filter backend_name results)"
  using assms by (induction results) (auto simp: List.map_filter_simps)

lemma count_list_names:
  "map backend_name results = map Some names \<Longrightarrow> count_list names b = page_count results b"
  unfolding page_count_def
  by (induction results arbitrary: names) auto

lemma format_loop_page:
  assumes "\<forall>r\<in>set results. backend_name r \<noteq> None"
  shows "format_loop results prev [] =
     Inr (map (\<lambda>b. (b, prev_start prev b + int (page_count results b))) (page_providers results))"
proof -
  let ?names = "List.map_filter backend_name results"
  have t: "map backend_name results = map Some ?names"
    using assms by (rule tagged_names)
  have "format_loop results prev [] =
     Inr (map (\<lambda>b. (b, prev_start prev b + int (count_list ?names b))) (first_occurrences ?names))"
    using format_loop_tagged [OF t, of "[]" prev] by simp
  then show ?thesis
    by (simp add: count_list_names [OF t] page_providers_def)
qed









section \<open>Claims about StartPoints.format\<close>









section \<open>Claim about the merge\<close>

lemma merge_results_sorted:
  "merge_results ko result_map per_page =
     py_slice_to (stable_sort_desc score
       (concat (map (\<lambda>(name, rs). map (spec_tag name) rs) (iteritems ko result_map)))) per_page"
  by (simp add: merge_results_def py_sort_reverse_eq merge_loop_concat)

lemma length_tagged_concat:
  "length (concat (map (\<lambda>(name, rs). map (spec_tag name) rs) items)) = length (concat (map snd items))"
  by (induction items) (auto simp: case_prod_unfold)

lemma length_stable_sort_desc: "length (stable_sort_desc key xs) = length xs"
  using mset_stable_sort_desc [of key xs] by (metis size_mset)

lemma py_slice_to_nonneg: "0 \<le> n \<Longrightarrow> py_slice_to xs n = take (nat n) xs"
  by (simp add: py_slice_to_def)

lemma py_slice_to_neg: "n < 0 \<Longrightarrow> py_slice_to xs n = take (length xs - nat (- n)) xs"
proof -
  assume "n < 0"
  then have "nat (int (length xs) + n) = length xs - nat (- n)" by linarith
  with \<open>n < 0\<close> show ?thesis by (simp add: py_slice_to_def)
qed

lemma example_items: "iteritems (\<lambda>ks. ks) example_map = example_map"
  by (simp add: iteritems_def example_map_def)

lemma example_spec_merge:
  "spec_merge example_map 3 =
     [example_result ''TracGuide'' 0.9 ''wiki'' (Some ''a''),
      example_result ''TracHelp'' 0.7 ''wiki'' (Some ''a''),
      example_result ''TracLinks'' 0.7 ''wiki'' (Some ''a'')]"
  by (simp add: spec_merge_def stable_sort_desc_def example_map_def example_result_def
      spec_tag_def numeral_3_eq_3)

text \<open>
  Claim C1, as the code has it. \<open>_merge_results\<close> tags every record with the name of its
  provider, concatenates the providers' lists in the iteration order of the mapping,
  sorts by score, descending and stable (\<open>stable_sort_desc\<close>: sorted, a permutation, and
  records of equal score in their input order), and then takes the slice
  \<open>[:per_page]\<close>: for \<open>per_page \<ge> 0\<close> these are the first \<open>per_page\<close> records, as in the
  reference \<open>spec_merge\<close>; for a negative \<open>per_page\<close> the slice drops the last
  \<open>-per_page\<close> records of the full sorted list instead.
\<close>

theorem merge_results_refines_spec:
  "(0 \<le> per_page \<longrightarrow>
      merge_results ko result_map per_page = spec_merge (iteritems ko result_map) (nat per_page)) \<and>
   (per_page < 0 \<longrightarrow>
      merge_results ko result_map per_page
        = take (length (concat (map snd (iteritems ko result_map))) - nat (- per_page))
            (spec_merge (iteritems ko result_map)
               (length (concat (map snd (iteritems ko result_map))))))"
proof -
  let ?items = "iteritems ko result_map"
  let ?all = "stable_sort_desc score (concat (map (\<lambda>(name, rs). map (spec_tag name) rs) ?items))"
  have len: "length ?all = length (concat (map snd ?items))"
    by (simp only: length_stable_sort_desc length_tagged_concat)
  have full: "spec_merge ?items (length (concat (map snd ?items))) = ?all"
    unfolding spec_merge_def len [symmetric] by simp
  have pos: "0 \<le> per_page \<Longrightarrow> merge_results ko result_map per_page = spec_merge ?items (nat per_page)"
    by (simp only: merge_results_sorted py_slice_to_nonneg spec_merge_def)
  have neg: "per_page < 0 \<Longrightarrow> merge_results ko result_map per_page
        = take (length (concat (map snd ?items)) - nat (- per_page))
            (spec_merge ?items (length (concat (map snd ?items))))"
    unfolding full by (simp only: merge_results_sorted py_slice_to_neg len)
  from pos neg show ?thesis by blast
qed

theorem merge_results_refines_spec_witness:
  "merge_results (\<lambda>ks. ks) example_map 3 =
     [example_result ''TracGuide'' 0.9 ''wiki'' (Some ''a''),
      example_result ''TracHelp'' 0.7 ''wiki'' (Some ''a''),
      example_result ''TracLinks'' 0.7 ''wiki'' (Some ''a'')]"
  using merge_results_refines_spec [of 3 "\<lambda>ks. ks" example_map]
  by (simp add: example_items example_spec_merge)

text \<open>
  Claim C1 as stated fails for a negative \<open>per_page\<close> (the request parameter is any
  integer): with five records and \<open>per_page = -4\<close> the code returns one record, where the
  first \<open>per_page\<close> records of the reference are none.
\<close>

theorem merge_results_negative_per_page:
  "merge_results (\<lambda>ks. ks) example_map (- 4) =
     [example_result ''TracGuide'' 0.9 ''wiki'' (Some ''a'')] \<and>
   spec_merge (iteritems (\<lambda>ks. ks) example_map) (nat (- 4)) = []"
  by (simp add: merge_results_def py_slice_to_def py_sort_reverse_def iteritems_def
      example_map_def example_result_def spec_merge_def)

section \<open>Claims about the incoming start points\<close>

lemma keys_parse_args_loop:
  "fst ` set (parse_args_loop a ps sp) = get_name ` set ps \<union> fst ` set sp"
  by (induction ps arbitrary: sp) (auto simp: AList.dom_update)

lemma distinct_parse_args_loop:
  "distinct (map fst sp) \<Longrightarrow> distinct (map fst (parse_args_loop a ps sp))"
  by (induction ps arbitrary: sp) (simp_all add: AList.distinct_update)

lemma map_of_parse_args_loop:
  "map_of (parse_args_loop a ps sp) k =
     (if k \<in> get_name ` set ps then Some (getfirst a (FORMAT_STRING k) (PyInt 0)) else map_of sp k)"
  by (induction ps arbitrary: sp) (simp_all add: AList.update_conv')

lemma py_int_getfirst:
  "(case py_int (getfirst a name (PyInt d)) of Inl e \<Rightarrow> d | Inr n \<Rightarrow> n) = spec_int_param a name d"
  by (cases "a name")
     (simp_all add: getfirst_def spec_int_param_def first_value_def py_int_def
        split: argval.split option.split)

lemma per_page_of_eq: "per_page_of a = Inr (spec_int_param a ''per_page'' 10)"
  by (cases "a ''per_page''")
     (simp_all add: per_page_of_def getfirst_def spec_int_param_def first_value_def py_int_def
        DEFAULT_PER_PAGE_def split: argval.split option.split)

lemma page_of_eq: "page_of a = Inr (spec_int_param a ''page'' 1)"
  by (cases "a ''page''")
     (simp_all add: page_of_def getfirst_def spec_int_param_def first_value_def py_int_def
        split: argval.split option.split)

lemma example_provider_names:
  "get_name ` set (providers example_component) = {''a'', ''b''}"
  by (simp add: example_component_def example_provider_def)

lemma example_args_values:
  "example_args ''provider_start_point:a'' = Some (Single ''10'')"
  "example_args ''provider_start_point:b'' = None"
  "example_args ''provider_start_point:c'' = Some (Single ''5'')"
  "example_args ''per_page'' = Some (Single '' 5 '')"
  "example_args ''page'' = Some (Single ''2'')"
  "example_args ''q'' = Some (Single ''trac'')"
  by (simp_all add: example_args_def)

lemma example_ints:
  "int_of_string ''10'' = Some 10" "int_of_string ''5'' = Some 5"
  "int_of_string '' 5 '' = Some 5" "int_of_string ''2'' = Some 2"
  by (simp_all add: int_of_string_def strip_def is_space_def unsigned_of_string_def
      is_digit_def digits_value_def)


lemma example_members:
  "example_provider ''a'' 12
           [example_result ''TracHelp'' 0.9 ''wiki'' None,
            example_result ''TracGuide'' 0.7 ''wiki'' None] \<in> set (providers example_component)"
  "example_provider ''b'' 3 [example_result ''Ticket 7'' 0.8 ''ticket'' None]
             \<in> set (providers example_component)"
  by (simp_all add: example_component_def)

lemma example_get_name: "get_name (example_provider name n rs) = name"
  by (simp add: example_provider_def)

text \<open>
  Claim C10. The dict returned by \<open>StartPoints.parse_args\<close> has exactly the names of the
  providers in the list as its keys (each once): a provider whose request parameter is
  absent has the entry 0, and a name that belongs to no provider in the list has no
  entry, whatever the request holds.
\<close>

theorem parse_args_keys:
  "fst ` set (parse_args a ps) = get_name ` set ps \<and>
   distinct (map fst (parse_args a ps)) \<and>
   (\<forall>p\<in>set ps. a (''provider_start_point:'' @ get_name p) = None \<longrightarrow>
       map_of (parse_args a ps) (get_name p) = Some (PyInt 0)) \<and>
   (\<forall>name. name \<notin> get_name ` set ps \<longrightarrow> map_of (parse_args a ps) name = None)"
proof -
  have k: "fst ` set (parse_args a ps) = get_name ` set ps"
    by (simp add: parse_args_def keys_parse_args_loop)
  have d: "distinct (map fst (parse_args a ps))"
    by (simp add: parse_args_def distinct_parse_args_loop)
  have z: "map_of (parse_args a ps) (get_name p) = Some (PyInt 0)"
    if "p \<in> set ps" "a (''provider_start_point:'' @ get_name p) = None" for p
    using that by (simp add: parse_args_def map_of_parse_args_loop getfirst_def FORMAT_STRING_def)
  have n: "map_of (parse_args a ps) name = None" if "name \<notin> get_name ` set ps" for name
    using that by (simp add: parse_args_def map_of_parse_args_loop)
  from k d z n show ?thesis by blast
qed

theorem parse_args_keys_witness:
  "fst ` set (parse_args example_args (providers example_component)) = {''a'', ''b''} \<and>
   map_of (parse_args example_args (providers example_component)) ''b'' = Some (PyInt 0) \<and>
   example_args ''provider_start_point:c'' = Some (Single ''5'') \<and>
   map_of (parse_args example_args (providers example_component)) ''c'' = None"
proof -
  let ?ps = "providers example_component"
  let ?sp = "parse_args example_args ?ps"
  note k = parse_args_keys [of example_args ?ps]
  from k have keys: "fst ` set ?sp = {''a'', ''b''}"
    by (simp only: example_provider_names)
  from k have "\<forall>p\<in>set ?ps. example_args (''provider_start_point:'' @ get_name p) = None \<longrightarrow>
       map_of ?sp (get_name p) = Some (PyInt 0)"
    by (rule conjunct1 [OF conjunct2 [OF conjunct2]])
  from bspec [OF this example_members(2)] have b: "map_of ?sp ''b'' = Some (PyInt 0)"
    by (simp add: example_get_name example_args_values)
  from k have "\<forall>name. name \<notin> get_name ` set ?ps \<longrightarrow> map_of ?sp name = None"
    by (rule conjunct2 [OF conjunct2 [OF conjunct2]])
  from spec [OF this, of "''c''"] have none: "map_of ?sp ''c'' = None"
    by (simp add: example_provider_names)
  from keys b none example_args_values(3) show ?thesis
    by (intro conjI)
qed

text \<open>
  Claim C4. For every request and every provider of the list, the start point that
  \<open>StartPoints.format\<close> parses from what \<open>StartPoints.parse_args\<close> stored for the
  parameter \<open>provider_start_point:<name>\<close> is 0 when the parameter is absent or its
  value is not an integer, and otherwise the integer supplied (\<open>spec_int_param\<close>).
\<close>

theorem incoming_start_point_parsed:
  assumes "p \<in> set ps"
  shows "prev_start (parse_args a ps) (get_name p) =
     spec_int_param a (''provider_start_point:'' @ get_name p) 0"
proof -
  have "map_of (parse_args a ps) (get_name p)
          = Some (getfirst a (''provider_start_point:'' @ get_name p) (PyInt 0))"
    using assms by (simp add: parse_args_def map_of_parse_args_loop FORMAT_STRING_def)
  then show ?thesis
    by (simp add: prev_start_def py_int_getfirst)
qed

theorem incoming_start_point_parsed_witness:
  "prev_start (parse_args example_args (providers example_component)) ''a'' = 10 \<and>
   prev_start (parse_args example_args (providers example_component)) ''b'' = 0"
proof -
  let ?sp = "parse_args example_args (providers example_component)"
  have a: "spec_int_param example_args ''provider_start_point:a'' 0 = 10"
    by (simp add: spec_int_param_def example_args_values first_value_def example_ints)
  have b: "spec_int_param example_args ''provider_start_point:b'' 0 = 0"
    by (simp add: spec_int_param_def example_args_values)
  have "prev_start ?sp ''a'' = spec_int_param example_args ''provider_start_point:a'' 0"
    using incoming_start_point_parsed [OF example_members(1), of example_args]
    by (simp add: example_get_name)
  moreover have "prev_start ?sp ''b'' = spec_int_param example_args ''provider_start_point:b'' 0"
    using incoming_start_point_parsed [OF example_members(2), of example_args]
    by (simp add: example_get_name)
  ultimately show ?thesis
    by (simp only: a b)
qed

section \<open>Claims about process_request and the links\<close>

lemma add_href_map:
  "add_href_to_results self rs =
     map (\<lambda>r. if source r = ''wiki'' then r\<lparr>href := Some (href_wiki self (title r))\<rparr> else r) rs"
  by (induction rs) simp_all

lemma query_providers_calls:
  "snd (snd (query_providers ps d (rm, tc, calls))) = calls @ map (\<lambda>p. (get_name p, d)) ps"
  by (induction ps arbitrary: rm tc calls) (simp_all split: prod.split)

lemma process_request_denied:
  "''SEARCH_VIEW'' \<notin> perm req \<Longrightarrow> process_request self req = ([], Inl PermissionError)"
  by (simp add: process_request_def)


lemma process_request_calls:
  "''SEARCH_VIEW'' \<in> perm req \<Longrightarrow> truthy (get (args req) ''q'') \<Longrightarrow>
   fst (process_request self req) =
     snd (snd (query_providers (providers self) (criteria_of self req) ([], 0, [])))"
  by (simp add: process_request_def per_page_of_eq page_of_eq Let_def
      split: prod.split sum.split)



lemma process_request_data:
  "process_request self req = (calls, Inr resp) \<Longrightarrow> truthy (get (args req) ''q'') \<Longrightarrow>
   d_per_page (resp_data resp) = Some (spec_int_param (args req) ''per_page'' 10) \<and>
   d_page (resp_data resp) = Some (spec_int_param (args req) ''page'' 1)"
  by (auto simp: process_request_def per_page_of_eq page_of_eq Let_def send_response_def
      split: prod.splits sum.splits if_splits)


lemma set_stable_sort_desc: "set (stable_sort_desc key xs) = set xs"
  using mset_stable_sort_desc [of key xs] by (metis set_mset_mset)

lemma merge_results_tagged: "\<forall>r\<in>set (merge_results ko rm pp). backend_name r \<noteq> None"
proof
  fix r assume "r \<in> set (merge_results ko rm pp)"
  then have "r \<in> set (stable_sort_desc score
       (concat (map (\<lambda>(name, rs). map (spec_tag name) rs) (iteritems ko rm))))"
    unfolding merge_results_sorted py_slice_to_def by (auto dest: in_set_takeD split: if_splits)
  then show "backend_name r \<noteq> None"
    by (auto simp: set_stable_sort_desc spec_tag_def)
qed

lemma add_href_tagged:
  "\<forall>r\<in>set rs. backend_name r \<noteq> None \<Longrightarrow>
   \<forall>r\<in>set (add_href_to_results self rs). backend_name r \<noteq> None"
  by (induction rs) simp_all

lemma format_total: "\<forall>r\<in>set rs. backend_name r \<noteq> None \<Longrightarrow> \<exists>s. format ko rs prev = Inr s"
  by (simp add: format_def format_loop_page)

lemma process_request_returns:
  assumes "''SEARCH_VIEW'' \<in> perm req" and "truthy (get (args req) ''q'')"
    and "\<And>items page max_per_page num_items. \<exists>pg. Paginator self items page max_per_page num_items = Inr pg"
  shows "\<exists>resp. snd (process_request self req) = Inr resp"
proof -
  obtain rm tc calls where q: "query_providers (providers self) (criteria_of self req) ([], 0, []) = (rm, tc, calls)"
    by (metis prod_cases3)
  let ?pp = "spec_int_param (args req) ''per_page'' 10"
  let ?pg = "spec_int_param (args req) ''page'' 1"
  let ?results = "add_href_to_results self (merge_results (key_order self) rm ?pp)"
  obtain pg where pg: "Paginator self ?results (?pg - 1) ?pp tc = Inr pg"
    using assms(3) by blast
  have "\<forall>r\<in>set ?results. backend_name r \<noteq> None"
    by (rule add_href_tagged [OF merge_results_tagged])
  then obtain s where s: "format (key_order self) ?results (d_start_points (criteria_of self req)) = Inr s"
    using format_total by blast
  show ?thesis
    using assms(1,2) q pg s
    by (simp add: process_request_def per_page_of_eq page_of_eq Let_def)
qed


lemma example_request_facts:
  "''SEARCH_VIEW'' \<in> perm example_request" "args example_request = example_args"
  "truthy (get (args example_request) ''q'')"
  by (simp_all add: example_request_def truthy_def get_def example_args_values)

lemma example_paginator_total:
  "\<exists>pg. Paginator example_component items page max_per_page num_items = Inr pg"
  by (simp add: example_component_def example_paginator_def)

lemma example_spec_params:
  "spec_int_param example_args ''per_page'' 10 = 5"
  "spec_int_param example_args ''page'' 1 = 2"
  by (simp_all add: spec_int_param_def example_args_values first_value_def example_ints)

lemma example_fallback_params:
  "spec_int_param example_fallback_args ''per_page'' 10 = 10"
  "spec_int_param example_fallback_args ''page'' 1 = 1"
  by (simp_all add: spec_int_param_def first_value_def example_fallback_args_def
      int_of_string_def strip_def is_space_def unsigned_of_string_def is_digit_def)

text \<open>
  Claim C6. The two conversions of \<open>process_request\<close> always yield a value: the integer
  supplied as \<open>per_page\<close> (as \<open>page\<close>), and the default 10 (1) exactly when the parameter
  is missing or its value is not an integer (\<open>spec_int_param\<close>). These are the values
  that \<open>process_request\<close> puts into the response data of a request with a query.
\<close>

theorem page_and_per_page_defaults:
  "per_page_of a = Inr (spec_int_param a ''per_page'' 10) \<and>
   page_of a = Inr (spec_int_param a ''page'' 1) \<and>
   (\<forall>calls resp. process_request self req = (calls, Inr resp) \<and> truthy (get (args req) ''q'') \<longrightarrow>
       d_per_page (resp_data resp) = Some (spec_int_param (args req) ''per_page'' 10) \<and>
       d_page (resp_data resp) = Some (spec_int_param (args req) ''page'' 1))"
  using process_request_data [of self req]
  by (simp only: per_page_of_eq page_of_eq) blast

theorem page_and_per_page_defaults_witness:
  "per_page_of example_fallback_args = Inr 10 \<and> page_of example_fallback_args = Inr 1 \<and>
   (\<exists>calls resp. process_request example_component example_request = (calls, Inr resp) \<and>
      d_per_page (resp_data resp) = Some 5 \<and> d_page (resp_data resp) = Some 2)"
proof -
  note t = page_and_per_page_defaults [of example_fallback_args example_component example_request]
  from t have a: "per_page_of example_fallback_args = Inr 10" "page_of example_fallback_args = Inr 1"
    by (simp_all only: example_fallback_params)
  obtain resp where r: "snd (process_request example_component example_request) = Inr resp"
    using process_request_returns [OF example_request_facts(1) example_request_facts(3)
      example_paginator_total] by blast
  then have p: "process_request example_component example_request
                  = (fst (process_request example_component example_request), Inr resp)"
    by (metis prod.collapse)
  from t p example_request_facts(3)
  have "d_per_page (resp_data resp) = Some (spec_int_param (args example_request) ''per_page'' 10) \<and>
        d_page (resp_data resp) = Some (spec_int_param (args example_request) ''page'' 1)"
    by blast
  then have "d_per_page (resp_data resp) = Some 5 \<and> d_page (resp_data resp) = Some 2"
    by (simp only: example_request_facts(2) example_spec_params)
  with a p show ?thesis by blast
qed

lemma query_providers_eq:
  "query_providers ps d (rm, tc, calls) =
     (foldl (\<lambda>m p. AList.update (get_name p) (snd (query_backend p d)) m) rm ps,
      tc + sum_list (map (\<lambda>p. fst (query_backend p d)) ps),
      calls @ map (\<lambda>p. (get_name p, d)) ps)"
  by (induction ps arbitrary: rm tc calls) (simp_all split: prod.split)

lemma process_request_query:
  assumes "''SEARCH_VIEW'' \<in> perm req" and "truthy (get (args req) ''q'')"
  shows "snd (process_request self req) =
     (let c = criteria_of self req;
          per_page = spec_int_param (args req) ''per_page'' 10;
          page = spec_int_param (args req) ''page'' 1;
          result_map = foldl (\<lambda>m p. AList.update (get_name p) (snd (query_backend p c)) m) []
                         (providers self);
          total_count = sum_list (map (\<lambda>p. fst (query_backend p c)) (providers self));
          results = add_href_to_results self (merge_results (key_order self) result_map per_page)
      in case Paginator self results (page - 1) per_page total_count of
           Inl e \<Rightarrow> Inl e
         | Inr pg \<Rightarrow>
             Inr (send_response self
               ((if has_next_page pg
                 then (case format (key_order self) results (d_start_points c) of
                         Inl e \<Rightarrow> [] | Inr s \<Rightarrow> [Link ''next'' (''javascript:next_page('' @ s @ '')'') ''Next Page''])
                 else [])
                @ (if has_previous_page pg
                   then [Link ''prev'' ''javascript:history.go(-1)'' ''Previous Page'']
                   else []))
               (c\<lparr>d_source_filters := Some (get_filter_dicts SOURCE_FILTERS (args req)),
                   d_per_page := Some per_page, d_page := Some page, d_results := Some pg\<rparr>)))"
proof -
  let ?c = "criteria_of self req"
  let ?pp = "spec_int_param (args req) ''per_page'' 10"
  let ?rm = "foldl (\<lambda>m p. AList.update (get_name p) (snd (query_backend p ?c)) m) [] (providers self)"
  let ?results = "add_href_to_results self (merge_results (key_order self) ?rm ?pp)"
  have "\<forall>r\<in>set ?results. backend_name r \<noteq> None"
    by (rule add_href_tagged [OF merge_results_tagged])
  then obtain s where s: "format (key_order self) ?results (d_start_points ?c) = Inr s"
    using format_total by blast
  have sp: "d_start_points (?c\<lparr>d_source_filters := x, d_per_page := y, d_page := z, d_results := w\<rparr>)
              = d_start_points ?c" for x y z w
    by simp
  show ?thesis
    using assms s
    by (simp add: process_request_def per_page_of_eq page_of_eq query_providers_eq Let_def
        split: sum.split)
qed


lemma example_results:
  "add_href_to_results example_component
     (merge_results (key_order example_component)
        (foldl (\<lambda>m p. AList.update (get_name p) (snd (query_backend p c)) m) []
           (providers example_component)) 5)
   = [(example_result ''TracHelp'' 0.9 ''wiki'' (Some ''a''))\<lparr>href := Some ''/wiki/TracHelp''\<rparr>,
      example_result ''Ticket 7'' 0.8 ''ticket'' (Some ''b''),
      (example_result ''TracGuide'' 0.7 ''wiki'' (Some ''a''))\<lparr>href := Some ''/wiki/TracGuide''\<rparr>]"
  by (simp add: example_component_def example_provider_def merge_results_def py_slice_to_def
      py_sort_reverse_def iteritems_def example_result_def)

text \<open>
  Claim C7, as the code has it. For every request that holds the permission SEARCH_VIEW
  and has a non-empty query, \<open>process_request\<close> calls \<open>query_backend\<close> of every registered
  provider, in order, with one and the same criteria record \<open>c\<close>: the result lists and
  the counts that are merged and given to the Paginator are those of \<open>query_backend p c\<close>.
  The record maps \<open>q\<close>, the non-empty entries of the \<open>author\<close> list, the \<open>source_filters\<close>
  list (under the key \<open>source\<close>), \<open>date_start\<close>, \<open>date_end\<close> and the start points of the
  providers; \<open>page\<close> and \<open>per_page\<close> are not in it (they are added to the data after the
  providers were queried).
\<close>

theorem providers_receive_criteria:
  assumes "''SEARCH_VIEW'' \<in> perm req" and "truthy (get (args req) ''q'')"
  shows "\<exists>c. d_q c = get (args req) ''q'' \<and>
     d_author c = filter (\<lambda>auth. auth \<noteq> []) (getlist (args req) ''author'') \<and>
     d_source c = getlist (args req) ''source_filters'' \<and>
     d_date_start c = getfirst (args req) ''date_start'' PyNone \<and>
     d_date_end c = getfirst (args req) ''date_end'' PyNone \<and>
     d_start_points c = parse_args (args req) (providers self) \<and>
     d_page c = None \<and> d_per_page c = None \<and> d_source_filters c = None \<and> d_results c = None \<and>
     fst (process_request self req) = map (\<lambda>p. (get_name p, c)) (providers self) \<and>
     (let result_map = foldl (\<lambda>m p. AList.update (get_name p) (snd (query_backend p c)) m) []
                         (providers self);
          total_count = sum_list (map (\<lambda>p. fst (query_backend p c)) (providers self));
          per_page = spec_int_param (args req) ''per_page'' 10;
          page = spec_int_param (args req) ''page'' 1;
          results = add_href_to_results self (merge_results (key_order self) result_map per_page)
      in case Paginator self results (page - 1) per_page total_count of
           Inl e \<Rightarrow> snd (process_request self req) = Inl e
         | Inr pg \<Rightarrow> (\<exists>resp. snd (process_request self req) = Inr resp \<and>
                          d_results (resp_data resp) = Some pg))"
proof -
  have calls: "fst (process_request self req)
          = map (\<lambda>p. (get_name p, criteria_of self req)) (providers self)"
    by (simp add: process_request_calls [OF assms] query_providers_calls)
  have out: "(let result_map = foldl (\<lambda>m p. AList.update (get_name p)
                                 (snd (query_backend p (criteria_of self req))) m) [] (providers self);
          total_count = sum_list (map (\<lambda>p. fst (query_backend p (criteria_of self req))) (providers self));
          per_page = spec_int_param (args req) ''per_page'' 10;
          page = spec_int_param (args req) ''page'' 1;
          results = add_href_to_results self (merge_results (key_order self) result_map per_page)
      in case Paginator self results (page - 1) per_page total_count of
           Inl e \<Rightarrow> snd (process_request self req) = Inl e
         | Inr pg \<Rightarrow> (\<exists>resp. snd (process_request self req) = Inr resp \<and>
                          d_results (resp_data resp) = Some pg))"
    unfolding process_request_query [OF assms]
    by (simp add: Let_def send_response_def split: sum.split)
  have fields: "d_q (criteria_of self req) = get (args req) ''q'' \<and>
     d_author (criteria_of self req) = filter (\<lambda>auth. auth \<noteq> []) (getlist (args req) ''author'') \<and>
     d_source (criteria_of self req) = getlist (args req) ''source_filters'' \<and>
     d_date_start (criteria_of self req) = getfirst (args req) ''date_start'' PyNone \<and>
     d_date_end (criteria_of self req) = getfirst (args req) ''date_end'' PyNone \<and>
     d_start_points (criteria_of self req) = parse_args (args req) (providers self) \<and>
     d_page (criteria_of self req) = None \<and> d_per_page (criteria_of self req) = None \<and>
     d_source_filters (criteria_of self req) = None \<and> d_results (criteria_of self req) = None"
    by (simp add: criteria_of_def)
  from fields calls out show ?thesis
    by (intro exI [of _ "criteria_of self req"] conjI) (elim conjE, assumption)+
qed


theorem providers_receive_criteria_witness:
  "\<exists>c. fst (process_request example_component example_request) = [(''a'', c), (''b'', c)] \<and>
     d_q c = PyStr ''trac'' \<and> d_author c = [''admin'', ''joe''] \<and> d_source c = [''wiki''] \<and>
     d_page c = None \<and> d_per_page c = None \<and>
     (\<exists>resp pg. snd (process_request example_component example_request) = Inr resp \<and>
        d_results (resp_data resp) = Some pg \<and>
        map title (pg_items pg) = [''TracHelp'', ''Ticket 7'', ''TracGuide''])"
proof -
  from providers_receive_criteria [OF example_request_facts(1) example_request_facts(3),
      of example_component]
  obtain c where c: "fst (process_request example_component example_request)
        = map (\<lambda>p. (get_name p, c)) (providers example_component)"
    and q: "d_q c = get (args example_request) ''q''"
    and a: "d_author c = filter (\<lambda>auth. auth \<noteq> []) (getlist (args example_request) ''author'')"
    and s: "d_source c = getlist (args example_request) ''source_filters''"
    and p: "d_page c = None" "d_per_page c = None"
    and out: "(let result_map = foldl (\<lambda>m p. AList.update (get_name p) (snd (query_backend p c)) m) []
                         (providers example_component);
          total_count = sum_list (map (\<lambda>p. fst (query_backend p c)) (providers example_component));
          per_page = spec_int_param (args example_request) ''per_page'' 10;
          page = spec_int_param (args example_request) ''page'' 1;
          results = add_href_to_results example_component
                      (merge_results (key_order example_component) result_map per_page)
      in case Paginator example_component results (page - 1) per_page total_count of
           Inl e \<Rightarrow> snd (process_request example_component example_request) = Inl e
         | Inr pg \<Rightarrow> (\<exists>resp. snd (process_request example_component example_request) = Inr resp \<and>
                          d_results (resp_data resp) = Some pg))"
    by blast
  have pgn: "Paginator example_component items page mpp n = example_paginator items page mpp n"
    for items page mpp n
    by (simp add: example_component_def)
  from out have "\<exists>resp pg. snd (process_request example_component example_request) = Inr resp \<and>
        d_results (resp_data resp) = Some pg \<and>
        map title (pg_items pg) = [''TracHelp'', ''Ticket 7'', ''TracGuide'']"
    unfolding Let_def example_request_facts(2) example_spec_params example_results pgn
    by (simp add: example_paginator_def) (auto simp: example_result_def)
  moreover have "map (\<lambda>p. (get_name p, c)) (providers example_component) = [(''a'', c), (''b'', c)]"
    by (simp add: example_component_def example_provider_def)
  moreover have "get (args example_request) ''q'' = PyStr ''trac''"
    by (simp add: example_request_facts(2) get_def example_args_values)
  moreover have "filter (\<lambda>auth. auth \<noteq> []) (getlist (args example_request) ''author'')
                   = [''admin'', ''joe'']"
    by (simp add: example_request_facts(2) getlist_def example_args_def)
  moreover have "getlist (args example_request) ''source_filters'' = [''wiki'']"
    by (simp add: example_request_facts(2) getlist_def example_args_def)
  ultimately show ?thesis
    using c q a s p by (intro exI [of _ c]) simp
qed

text \<open>
  Claim C7 as stated fails: the example request supplies \<open>page = 2\<close> and \<open>per_page = 5\<close>,
  and the criteria that both providers receive hold neither.
\<close>

theorem criteria_lack_page_and_per_page:
  "spec_int_param (args example_request) ''page'' 1 = 2 \<and>
   spec_int_param (args example_request) ''per_page'' 10 = 5 \<and>
   map (\<lambda>(name, c). (name, d_page c, d_per_page c))
     (fst (process_request example_component example_request))
     = [(''a'', None, None), (''b'', None, None)]"
proof -
  have "fst (process_request example_component example_request)
          = map (\<lambda>p. (get_name p, criteria_of example_component example_request))
              (providers example_component)"
    by (simp add: process_request_calls [OF example_request_facts(1) example_request_facts(3)]
        query_providers_calls)
  then have "map (\<lambda>(name, c). (name, d_page c, d_per_page c))
     (fst (process_request example_component example_request))
     = map (\<lambda>p. (get_name p, None, None)) (providers example_component)"
    by (simp add: criteria_of_def comp_def)
  then show ?thesis
    by (simp add: example_request_facts(2) example_spec_params example_component_def
        example_provider_def)
qed

text \<open>
  Claim C8, as the code has it. \<open>_add_href_to_results\<close> keeps the number and the order of
  the records; a record whose source is \<open>wiki\<close> gets the \<open>href\<close> of its title (set or
  overwritten) and is otherwise unchanged; a record with any other source is unchanged
  altogether, so it has an \<open>href\<close> exactly when it had one before.
\<close>

theorem add_href_frame:
  "length (add_href_to_results self rs) = length rs \<and>
   (\<forall>i<length rs.
      (source (rs ! i) = ''wiki'' \<longrightarrow>
         add_href_to_results self rs ! i = (rs ! i)\<lparr>href := Some (href_wiki self (title (rs ! i)))\<rparr>) \<and>
      (source (rs ! i) \<noteq> ''wiki'' \<longrightarrow> add_href_to_results self rs ! i = rs ! i))"
  by (simp add: add_href_map)

theorem add_href_frame_witness:
  "length (add_href_to_results example_component example_page) = 3 \<and>
   add_href_to_results example_component example_page ! 0
     = (example_page ! 0)\<lparr>href := Some ''/wiki/TracHelp''\<rparr> \<and>
   add_href_to_results example_component example_page ! 1 = example_page ! 1"
proof -
  note t = add_href_frame [of example_component example_page]
  have len: "length example_page = 3"
    by (simp add: example_page_def)
  have s0: "source (example_page ! 0) = ''wiki''" "title (example_page ! 0) = ''TracHelp''"
    and s1: "source (example_page ! 1) \<noteq> ''wiki''"
    by (simp_all add: example_page_def example_result_def)
  have h: "href_wiki example_component ''TracHelp'' = ''/wiki/TracHelp''"
    by (simp add: example_component_def)
  from t have l: "length (add_href_to_results example_component example_page) = 3"
    by (simp only: len)
  from t len s0 have a0: "add_href_to_results example_component example_page ! 0
     = (example_page ! 0)\<lparr>href := Some (href_wiki example_component ''TracHelp'')\<rparr>"
    by (metis zero_less_numeral)
  from t len s1 have a1: "add_href_to_results example_component example_page ! 1 = example_page ! 1"
    by (metis one_less_numeral_iff semiring_norm(77))
  from l a0 a1 show ?thesis
    by (simp only: h) 
qed

text \<open>
  Claim C8 as stated fails for a record that a backend delivers with an \<open>href\<close> of its
  own: its source is not \<open>wiki\<close>, and it is not left without an \<open>href\<close>.
\<close>

theorem non_wiki_href_kept:
  "source example_linked \<noteq> ''wiki'' \<and>
   map href (add_href_to_results example_component [example_linked]) = [Some ''/ticket/7'']"
  by (simp add: example_linked_def example_result_def)




end
